theory Spec2Isabelle
  imports Main "HOL-Library.AList"
begin

section \<open>The hotkey dialog's document\<close>

text \<open>
  The dialog page holds six text inputs of class \<open>hotkey-input\<close> and two buttons.
  Every one of them carries an id, so \<open>document.getElementById\<close> can return any of
  the eight elements. \<open>hotkeyInputs\<close> is the result of
  \<open>document.querySelectorAll('.hotkey-input')\<close>: the six inputs in document order.
\<close>

datatype field = PushToTalk | ToggleHandsFree | ToggleBar | SwitchEn | SwitchPt | SwitchEs

datatype button = ResetHotkeys | SaveHotkeys

datatype element = Input field | Button button

fun id_of :: "field \<Rightarrow> string" where
  "id_of PushToTalk = ''push-to-talk''"
| "id_of ToggleHandsFree = ''toggle-hands-free''"
| "id_of ToggleBar = ''toggle-bar''"
| "id_of SwitchEn = ''switch-en''"
| "id_of SwitchPt = ''switch-pt''"
| "id_of SwitchEs = ''switch-es''"

definition hotkeyInputs :: "field list" where
  "hotkeyInputs = [PushToTalk, ToggleHandsFree, ToggleBar, SwitchEn, SwitchPt, SwitchEs]"

definition elementsWithId :: "(string \<times> element) list" where
  "elementsWithId =
     [(''push-to-talk'', Input PushToTalk),
      (''toggle-hands-free'', Input ToggleHandsFree),
      (''toggle-bar'', Input ToggleBar),
      (''switch-en'', Input SwitchEn),
      (''switch-pt'', Input SwitchPt),
      (''switch-es'', Input SwitchEs),
      (''reset-hotkeys'', Button ResetHotkeys),
      (''save-hotkeys'', Button SaveHotkeys)]"

definition getElementById :: "string \<Rightarrow> element option" where
  "getElementById i = map_of elementsWithId i"

text \<open>The constant table \<open>defaultHotkeys\<close>, an object keyed by element id.\<close>

definition defaultHotkeys :: "(string \<times> string) list" where
  "defaultHotkeys =
     [(''push-to-talk'', ''Alt+Space''),
      (''toggle-hands-free'', ''Alt+H''),
      (''toggle-bar'', ''Alt+B''),
      (''switch-en'', ''Alt+1''),
      (''switch-pt'', ''Alt+2''),
      (''switch-es'', ''Alt+3'')]"

text \<open>
  \<open>defaultHotkeys[input.id]\<close>. A missing key would read as \<open>undefined\<close>, which an
  input shows as the text \<open>undefined\<close>; all six inputs have an entry
  (lemma \<open>defaultHotkeys_total\<close>), so that branch is never taken.
\<close>

definition defaultHotkey :: "field \<Rightarrow> string" where
  "defaultHotkey f =
     (case map_of defaultHotkeys (id_of f) of Some v \<Rightarrow> v | None \<Rightarrow> ''undefined'')"

text \<open>
  The dialog's state: the \<open>value\<close> of every input and button, which inputs carry the
  CSS class \<open>recording\<close>, and the two module variables \<open>isRecording\<close> and
  \<open>currentInput\<close> (\<open>None\<close> is \<open>null\<close>).
\<close>

record dialog =
  inputValue :: "field \<Rightarrow> string"
  buttonValue :: "button \<Rightarrow> string"
  recording :: "field set"
  isRecording :: bool
  currentInput :: "field option"

definition initialDialog :: dialog where
  "initialDialog =
     \<lparr>inputValue = (\<lambda>_. []), buttonValue = (\<lambda>_. []), recording = {},
      isRecording = False, currentInput = None\<rparr>"

section \<open>Recording session\<close>

definition resetHotkeys :: "dialog \<Rightarrow> dialog" where
  "resetHotkeys d =
     foldl (\<lambda>d' input. d'\<lparr>inputValue := (inputValue d')(input := defaultHotkey input)\<rparr>)
       d hotkeyInputs"

definition stopRecording :: "dialog \<Rightarrow> dialog" where
  "stopRecording d =
     (let d1 =
        (case currentInput d of
           None \<Rightarrow> d
         | Some c \<Rightarrow>
             (let d0 =
                (if inputValue d c = ''Recording...''
                 then d\<lparr>inputValue := (inputValue d)(c := defaultHotkey c)\<rparr>
                 else d)
              in d0\<lparr>recording := recording d0 - {c}\<rparr>))
      in d1\<lparr>isRecording := False, currentInput := None\<rparr>)"

definition startRecording :: "field \<Rightarrow> dialog \<Rightarrow> dialog" where
  "startRecording input d =
     (let d1 = (if isRecording d then stopRecording d else d)
      in d1\<lparr>isRecording := True,
            currentInput := Some input,
            inputValue := (inputValue d1)(input := ''Recording...''),
            recording := insert input (recording d1)\<rparr>)"

subsection \<open>The key-down listener\<close>

text \<open>
  A key-down event as the listener reads it: the three modifier flags and \<open>e.key\<close>.
  A JavaScript string is kept as the bytes of its UTF-8 form, so ASCII text is its own
  list of characters.
\<close>

record key_event =
  ctrlKey :: bool
  altKey :: bool
  shiftKey :: bool
  key :: string

text \<open>
  \<open>String.prototype.length\<close> counts UTF-16 code units: one for a character of the
  basic plane, two for a character beyond it. In UTF-8 a character starts at every byte
  that is not a continuation byte (\<open>0x80\<close> to \<open>0xBF\<close>), and the characters beyond the
  basic plane are those whose first byte is \<open>0xF0\<close> or more.
\<close>

definition jsLength :: "string \<Rightarrow> nat" where
  "jsLength s =
     length (filter (\<lambda>c. \<not> (128 \<le> (of_char c :: nat) \<and> (of_char c :: nat) < 192)) s)
     + length (filter (\<lambda>c. 240 \<le> (of_char c :: nat)) s)"

definition isAscii :: "string \<Rightarrow> bool" where
  "isAscii s = list_all (\<lambda>c. (of_char c :: nat) < 128) s"

text \<open>
  \<open>String.prototype.toUpperCase\<close>. On ASCII text it changes the letters \<open>a\<close> to
  \<open>z\<close> only, each to its capital. On any other text its result comes from the Unicode
  case mapping of the JavaScript runtime (c with cedilla gives its capital, the sharp s
  gives \<open>SS\<close>); that table is no part of the repository and is the
  parameter \<open>rt\<close>, the runtime's \<open>toUpperCase\<close> on text with a non-ASCII character.
  \<open>asciiUpper\<close> is applied to the characters of ASCII text only. Every function that
  runs the key-down listener takes \<open>rt\<close>, and what is proved holds for every \<open>rt\<close>.
\<close>

definition lowerLetters :: string where
  "lowerLetters = ''abcdefghijklmnopqrstuvwxyz''"

definition capitalLetters :: string where
  "capitalLetters = ''ABCDEFGHIJKLMNOPQRSTUVWXYZ''"

definition asciiUpper :: "char \<Rightarrow> char" where
  "asciiUpper c =
     (case map_of (zip lowerLetters capitalLetters) c of Some u \<Rightarrow> u | None \<Rightarrow> c)"

definition toUpperCase :: "(string \<Rightarrow> string) \<Rightarrow> string \<Rightarrow> string" where
  "toUpperCase rt s = (if isAscii s then map asciiUpper s else rt s)"

text \<open>\<open>Array.prototype.join\<close>.\<close>

fun join :: "string \<Rightarrow> string list \<Rightarrow> string" where
  "join sep [] = []"
| "join sep [x] = x"
| "join sep (x # y # ys) = x @ sep @ join sep (y # ys)"

text \<open>
  The main key's token: \<open>e.key.length === 1 ? e.key.toUpperCase() : e.key\<close>.
\<close>

definition primaryToken :: "(string \<Rightarrow> string) \<Rightarrow> string \<Rightarrow> string" where
  "primaryToken rt k = (if jsLength k = 1 then toUpperCase rt k else k)"

text \<open>The array \<open>keys\<close> the listener builds from the event.\<close>

definition hotkeyKeys :: "(string \<Rightarrow> string) \<Rightarrow> key_event \<Rightarrow> string list" where
  "hotkeyKeys rt e =
     (let keys0 = [];
          keys1 = (if ctrlKey e then keys0 @ [''Ctrl''] else keys0);
          keys2 = (if altKey e then keys1 @ [''Alt''] else keys1);
          keys3 = (if shiftKey e then keys2 @ [''Shift''] else keys2)
      in if key e \<notin> set [''Control'', ''Alt'', ''Shift'']
         then keys3 @ [primaryToken rt (key e)]
         else keys3)"

datatype js_error = TypeError string | Rejected

text \<open>
  The listener returns whether it called \<open>e.preventDefault()\<close> and the new state.
  Writing \<open>currentInput.value\<close> while \<open>currentInput\<close> is \<open>null\<close> throws.
\<close>

definition keydown ::
  "(string \<Rightarrow> string) \<Rightarrow> key_event \<Rightarrow> dialog \<Rightarrow> js_error + (bool \<times> dialog)" where
  "keydown rt e d =
     (if \<not> isRecording d then Inr (False, d)
      else
        (let keys = hotkeyKeys rt e in
         if length keys > 0 then
           (case currentInput d of
              None \<Rightarrow> Inl (TypeError ''Cannot set properties of null'')
            | Some c \<Rightarrow>
                Inr (True, stopRecording (d\<lparr>inputValue := (inputValue d)(c := join ''+'' keys)\<rparr>)))
         else Inr (True, d)))"

text \<open>
  The Key-Event Normalizer of the specification is the part of the listener between the
  guard and the commit: the string the listener writes into the field, if it writes one.
\<close>

definition normalizeKeyEvent :: "(string \<Rightarrow> string) \<Rightarrow> key_event \<Rightarrow> string option" where
  "normalizeKeyEvent rt e =
     (let keys = hotkeyKeys rt e in if length keys > 0 then Some (join ''+'' keys) else None)"

text \<open>
  The event a key-down of key \<open>K\<close> carries while exactly the modifiers in \<open>M\<close> are
  held, and the token the listener writes for each modifier.
\<close>

datatype modifier = Ctrl | Alt | Shift

fun modifierToken :: "modifier \<Rightarrow> string" where
  "modifierToken Ctrl = ''Ctrl''"
| "modifierToken Alt = ''Alt''"
| "modifierToken Shift = ''Shift''"

definition eventOf :: "modifier set \<Rightarrow> string \<Rightarrow> key_event" where
  "eventOf M K =
     \<lparr>ctrlKey = (Ctrl \<in> M), altKey = (Alt \<in> M), shiftKey = (Shift \<in> M), key = K\<rparr>"

section \<open>The settings store and its gateway\<close>

text \<open>
  The persisted settings blob is one JavaScript object. Its \<open>hotkeys\<close> section, when
  present, is an object from ids to hotkey strings, kept as the list of its entries in
  insertion order (the order \<open>Object.entries\<close> returns); \<open>None\<close> is an absent
  (\<open>undefined\<close> or \<open>null\<close>) section. \<open>rest\<close> holds every other section.
\<close>

datatype jsval = JBool bool | JStr string

record settings =
  hotkeys :: "(string \<times> string) list option"
  rest :: "string \<rightharpoonup> jsval"

text \<open>The empty object \<open>{}\<close>.\<close>

definition emptySettings :: settings where
  "emptySettings = \<lparr>hotkeys = None, rest = Map.empty\<rparr>"

text \<open>
  What a renderer sees of the main process: the electron store's \<open>settings\<close> entry
  (\<open>None\<close> before the first write), whether the next \<open>get-settings\<close> and
  \<open>save-settings\<close> invocations reject (the store failing to read or write its file),
  whether the dialog's window is open, and the lines written with \<open>console.error\<close>.
\<close>

record world =
  store :: "settings option"
  getRejects :: bool
  saveRejects :: bool
  windowOpen :: bool
  consoleErrors :: "string list"

text \<open>A first run: nothing persisted yet, a working gateway, the dialog's window open.\<close>

definition freshWorld :: world where
  "freshWorld =
     \<lparr>store = None, getRejects = False, saveRejects = False, windowOpen = True,
      consoleErrors = []\<rparr>"

text \<open>The methods the preload script exposes as \<open>window.api\<close>.\<close>

definition api_methods :: "string list" where
  "api_methods =
     [''getSettings'', ''saveSettings'', ''getMicrophones'', ''testMicrophone'',
      ''testService'', ''startDictation'', ''stopDictation'', ''minimizeWindow'',
      ''maximizeWindow'', ''closeWindow'', ''on'', ''off'']"

text \<open>
  \<open>getSettings\<close> invokes the handler \<open>store.get('settings')\<close>, \<open>saveSettings\<close> the
  handler \<open>store.set('settings', settings)\<close>, which replaces the whole entry.
\<close>

definition api_getSettings :: "world \<Rightarrow> js_error + settings option" where
  "api_getSettings w = (if getRejects w then Inl Rejected else Inr (store w))"

definition api_saveSettings :: "settings \<Rightarrow> world \<Rightarrow> js_error + world" where
  "api_saveSettings s w = (if saveRejects w then Inl Rejected else Inr (w\<lparr>store := Some s\<rparr>))"

text \<open>
  \<open>window.api.closeHotkeyDialog()\<close>: calling a property that the api object does not
  have throws a TypeError. Were the method exposed, it would dismiss the dialog's window.
\<close>

definition api_closeHotkeyDialog :: "world \<Rightarrow> js_error + world" where
  "api_closeHotkeyDialog w =
     (if ''closeHotkeyDialog'' \<in> set api_methods then Inr (w\<lparr>windowOpen := False\<rparr>)
      else Inl (TypeError ''window.api.closeHotkeyDialog is not a function''))"

definition console_error :: "string \<Rightarrow> world \<Rightarrow> world" where
  "console_error msg w = w\<lparr>consoleErrors := consoleErrors w @ [msg]\<rparr>"

section \<open>Loading and saving in the hotkey dialog\<close>

text \<open>The callback of the \<open>forEach\<close> in \<open>loadHotkeys\<close>, for one entry \<open>[id, value]\<close>.\<close>

definition setEntry :: "dialog \<Rightarrow> string \<times> string \<Rightarrow> dialog" where
  "setEntry d entry =
     (case getElementById (fst entry) of
        None \<Rightarrow> d
      | Some (Input f) \<Rightarrow> d\<lparr>inputValue := (inputValue d)(f := snd entry)\<rparr>
      | Some (Button b) \<Rightarrow> d\<lparr>buttonValue := (buttonValue d)(b := snd entry)\<rparr>)"

text \<open>
  \<open>settings?.hotkeys\<close>, and \<open>settings?.hotkeys || defaultHotkeys\<close>: an object, even an
  empty one, is truthy.
\<close>

definition persistedHotkeys :: "settings option \<Rightarrow> (string \<times> string) list option" where
  "persistedHotkeys r = (case r of None \<Rightarrow> None | Some s \<Rightarrow> hotkeys s)"

definition hotkeysOrDefault :: "settings option \<Rightarrow> (string \<times> string) list" where
  "hotkeysOrDefault r =
     (case persistedHotkeys r of None \<Rightarrow> defaultHotkeys | Some h \<Rightarrow> h)"

text \<open>\<open>loadHotkeys\<close>; a rejected read is caught and logged, and no field changes.\<close>

definition loadHotkeys :: "dialog \<Rightarrow> world \<Rightarrow> dialog \<times> world" where
  "loadHotkeys d w =
     (case api_getSettings w of
        Inl err \<Rightarrow> (d, console_error ''Error loading hotkeys:'' w)
      | Inr r \<Rightarrow> (foldl setEntry d (hotkeysOrDefault r), w))"

text \<open>
  The object \<open>hotkeys\<close> that \<open>saveHotkeys\<close> builds: one assignment
  \<open>hotkeys[input.id] = input.value || defaultHotkeys[input.id]\<close> per input. The empty
  string is the only falsy value an input can hold.
\<close>

definition valueOrDefault :: "dialog \<Rightarrow> field \<Rightarrow> string" where
  "valueOrDefault d input =
     (if inputValue d input \<noteq> [] then inputValue d input else defaultHotkey input)"

definition collectHotkeys :: "dialog \<Rightarrow> (string \<times> string) list" where
  "collectHotkeys d =
     foldl (\<lambda>h input. AList.update (id_of input) (valueOrDefault d input) h) [] hotkeyInputs"

text \<open>
  \<open>saveHotkeys\<close>. Its awaits are taken to resolve at once: no other event runs between
  the read, the write and the call that is to close the window. Whatever is thrown on the
  way is caught and logged.
\<close>

definition saveHotkeys :: "dialog \<Rightarrow> world \<Rightarrow> world" where
  "saveHotkeys d w =
     (let hk = collectHotkeys d in
      case api_getSettings w of
        Inl err \<Rightarrow> console_error ''Error saving hotkeys:'' w
      | Inr r \<Rightarrow>
          (let settings0 = (case r of None \<Rightarrow> emptySettings | Some s \<Rightarrow> s);
               settings1 = settings0\<lparr>hotkeys := Some hk\<rparr>
           in case api_saveSettings settings1 w of
                Inl err \<Rightarrow> console_error ''Error saving hotkeys:'' w
              | Inr w1 \<Rightarrow>
                  (case api_closeHotkeyDialog w1 of
                     Inl err \<Rightarrow> console_error ''Error saving hotkeys:'' w1
                   | Inr w2 \<Rightarrow> w2)))"

section \<open>Saving in the main settings window\<close>

text \<open>The controls of the main window that \<open>saveSettings\<close> reads.\<close>

record main_form =
  interactionSounds :: bool
  muteAudio :: bool
  autoLearn :: bool
  outputLanguage :: string
  recognitionService :: string
  whisperKey :: string
  azureKey :: string
  azureRegion :: string
  googleCredentials :: string

text \<open>The controls as the page first shows them.\<close>

definition initialForm :: main_form where
  "initialForm =
     \<lparr>interactionSounds = False, muteAudio = False, autoLearn = True,
      outputLanguage = ''en-US'', recognitionService = ''whisper'', whisperKey = [],
      azureKey = [], azureRegion = [], googleCredentials = []\<rparr>"

definition saveSettings :: "main_form \<Rightarrow> world \<Rightarrow> world" where
  "saveSettings form w =
     (let settings0 =
        \<lparr>hotkeys = None,
         rest = map_of
           [(''interactionSounds'', JBool (interactionSounds form)),
            (''muteAudio'', JBool (muteAudio form)),
            (''autoLearn'', JBool (autoLearn form)),
            (''outputLanguage'', JStr (outputLanguage form)),
            (''recognitionService'', JStr (recognitionService form)),
            (''whisperKey'', JStr (whisperKey form)),
            (''azureKey'', JStr (azureKey form)),
            (''azureRegion'', JStr (azureRegion form)),
            (''googleCredentials'', JStr (googleCredentials form))]\<rparr>
      in case api_saveSettings settings0 w of
           Inl err \<Rightarrow> console_error ''Error saving settings:'' w
         | Inr w1 \<Rightarrow> w1)"

section \<open>The dialog as a state machine\<close>

text \<open>
  The dialog's event listeners: click and blur on each input, key-down on the document,
  the two buttons (the reset button with the answer given to \<open>confirm\<close>) and
  \<open>DOMContentLoaded\<close>. \<open>Outside\<close> is any change made by the rest of the system:
  another window writing the store, the gateway starting or ceasing to fail.
  A listener that throws leaves the state as it was.
\<close>

datatype event =
    Click field
  | Blur field
  | KeyDown key_event
  | ResetClick bool
  | SaveClick
  | DOMContentLoaded
  | Outside world

fun handle ::
  "(string \<Rightarrow> string) \<Rightarrow> event \<Rightarrow> dialog \<times> world \<Rightarrow> dialog \<times> world" where
  "handle rt (Click input) (d, w) = (startRecording input d, w)"
| "handle rt (Blur input) (d, w) = (stopRecording d, w)"
| "handle rt (KeyDown e) (d, w) =
     (case keydown rt e d of Inl err \<Rightarrow> (d, w) | Inr (prevented, d') \<Rightarrow> (d', w))"
| "handle rt (ResetClick confirmed) (d, w) = (if confirmed then resetHotkeys d else d, w)"
| "handle rt SaveClick (d, w) = (d, saveHotkeys d w)"
| "handle rt DOMContentLoaded (d, w) = loadHotkeys d w"
| "handle rt (Outside w') (d, w) = (d, w')"

inductive reachable :: "(string \<Rightarrow> string) \<Rightarrow> dialog \<times> world \<Rightarrow> bool"
  for rt :: "string \<Rightarrow> string" where
  initial: "reachable rt (initialDialog, w)"
| step: "reachable rt s \<Longrightarrow> reachable rt (handle rt ev s)"

text \<open>
  The scenario of the specification: the dialog opens on a first run, the user clicks
  \<open>switch-en\<close> and presses 4 with Alt held.
\<close>

definition scenario :: "(string \<Rightarrow> string) \<Rightarrow> dialog \<times> world" where
  "scenario rt =
     foldl (\<lambda>s ev. handle rt ev s) (initialDialog, freshWorld)
       [DOMContentLoaded, Click SwitchEn,
        KeyDown \<lparr>ctrlKey = False, altKey = True, shiftKey = False, key = ''4''\<rparr>]"

text \<open>
  The session's invariant: \<open>isRecording\<close> holds exactly when \<open>currentInput\<close> is set,
  and the input that carries the class \<open>recording\<close> is the current one.
\<close>

definition sessionInv :: "dialog \<Rightarrow> bool" where
  "sessionInv d =
     ((isRecording d = (currentInput d \<noteq> None)) \<and> recording d = set_option (currentInput d))"

text \<open>
  A field is capturing when it is the session's field or carries the visual mark of one.
\<close>

definition isCapturing :: "dialog \<Rightarrow> field \<Rightarrow> bool" where
  "isCapturing d f = ((isRecording d \<and> currentInput d = Some f) \<or> f \<in> recording d)"

section \<open>Basic facts\<close>

lemma defaultHotkeys_total: "map_of defaultHotkeys (id_of f) = Some (defaultHotkey f)"
  by (cases f) (simp_all add: defaultHotkey_def defaultHotkeys_def)

lemma defaultHotkey_simps:
  "defaultHotkey PushToTalk = ''Alt+Space''"
  "defaultHotkey ToggleHandsFree = ''Alt+H''"
  "defaultHotkey ToggleBar = ''Alt+B''"
  "defaultHotkey SwitchEn = ''Alt+1''"
  "defaultHotkey SwitchPt = ''Alt+2''"
  "defaultHotkey SwitchEs = ''Alt+3''"
  by (simp_all add: defaultHotkey_def defaultHotkeys_def)

lemma defaultHotkey_nonempty: "defaultHotkey f \<noteq> []"
  by (cases f) (simp_all add: defaultHotkey_simps)

lemma getElementById_id_of: "getElementById (id_of f) = Some (Input f)"
  by (cases f) (simp_all add: getElementById_def elementsWithId_def)

lemma getElementById_Input:
  assumes "getElementById k = Some (Input f)"
  shows "k = id_of f"
proof -
  from assms have "(k, Input f) \<in> set elementsWithId"
    unfolding getElementById_def by (rule map_of_SomeD)
  then have "(k, f) \<in> {(''push-to-talk'', PushToTalk), (''toggle-hands-free'', ToggleHandsFree),
      (''toggle-bar'', ToggleBar), (''switch-en'', SwitchEn), (''switch-pt'', SwitchPt),
      (''switch-es'', SwitchEs)}"
    by (simp add: elementsWithId_def)
  then show ?thesis
    by (elim insertE emptyE) simp_all
qed

lemma id_of_eq_iff: "(id_of g = id_of f) = (g = f)"
proof
  assume "id_of g = id_of f"
  then have "getElementById (id_of g) = getElementById (id_of f)" by (rule arg_cong)
  then show "g = f" by (simp only: getElementById_id_of option.inject element.inject)
qed simp

subsection \<open>Length and upper-casing of ASCII text\<close>

lemma jsLength_ascii: "isAscii s \<Longrightarrow> jsLength s = length s"
  by (induction s) (simp_all add: jsLength_def isAscii_def)

lemma lowerLetters_codes: "map (\<lambda>c. of_char c :: nat) lowerLetters = [97..<123]"
  by (simp add: lowerLetters_def upt_rec)

lemma lowerLetters_iff:
  "(c \<in> set lowerLetters) = (97 \<le> (of_char c :: nat) \<and> (of_char c :: nat) \<le> 122)"
proof -
  have "(c \<in> set lowerLetters) =
      ((of_char c :: nat) \<in> (\<lambda>c. of_char c :: nat) ` set lowerLetters)"
    by (rule inj_image_mem_iff [symmetric]) (simp add: inj_on_def)
  also have "(\<lambda>c. of_char c :: nat) ` set lowerLetters = set [97..<123]"
    unfolding lowerLetters_codes [symmetric] by (simp only: set_map)
  also have "((of_char c :: nat) \<in> set [97..<123]) =
      (97 \<le> (of_char c :: nat) \<and> (of_char c :: nat) \<le> 122)"
    by (simp only: set_upt atLeastLessThan_iff) arith
  finally show ?thesis .
qed

lemma asciiUpper_letters:
  "list_all (\<lambda>c. (of_char (asciiUpper c) :: nat) = of_char c - 32) lowerLetters"
  by (simp add: lowerLetters_def capitalLetters_def asciiUpper_def)

lemma asciiUpper_other:
  assumes "c \<notin> set lowerLetters"
  shows "asciiUpper c = c"
proof -
  have "length lowerLetters = length capitalLetters"
    by (simp add: lowerLetters_def capitalLetters_def)
  with assms have "map_of (zip lowerLetters capitalLetters) c = None"
    by (simp add: map_of_zip_is_None)
  then show ?thesis by (simp add: asciiUpper_def)
qed

text \<open>
  \<open>asciiUpper\<close> by character codes: a letter from \<open>a\<close> (97) to \<open>z\<close> (122) goes to
  the character 32 below it, its capital; every other character stays.
\<close>

lemma asciiUpper_code:
  "asciiUpper c =
     char_of (if 97 \<le> (of_char c :: nat) \<and> (of_char c :: nat) \<le> 122
              then (of_char c :: nat) - 32 else of_char c)"
proof (cases "c \<in> set lowerLetters")
  case True
  with asciiUpper_letters have "(of_char (asciiUpper c) :: nat) = of_char c - 32"
    by (simp only: list_all_iff)
  then have "char_of (of_char (asciiUpper c) :: nat) = char_of ((of_char c :: nat) - 32)"
    by (rule arg_cong)
  moreover from True have "97 \<le> (of_char c :: nat) \<and> (of_char c :: nat) \<le> 122"
    by (simp only: lowerLetters_iff)
  ultimately show ?thesis by simp
next
  case False
  then have "\<not> (97 \<le> (of_char c :: nat) \<and> (of_char c :: nat) \<le> 122)"
    by (simp add: lowerLetters_iff)
  then have "(if 97 \<le> (of_char c :: nat) \<and> (of_char c :: nat) \<le> 122
              then (of_char c :: nat) - 32 else of_char c) = of_char c"
    by (rule if_not_P)
  with asciiUpper_other [OF False] show ?thesis by simp
qed

subsection \<open>Reset and the recording session\<close>

lemma resetHotkeys_value: "inputValue (resetHotkeys d) f = defaultHotkey f"
  by (cases f) (simp_all add: resetHotkeys_def hotkeyInputs_def)

lemma resetHotkeys_other:
  "buttonValue (resetHotkeys d) = buttonValue d"
  "recording (resetHotkeys d) = recording d"
  "isRecording (resetHotkeys d) = isRecording d"
  "currentInput (resetHotkeys d) = currentInput d"
  by (simp_all add: resetHotkeys_def hotkeyInputs_def)

lemma stopRecording_session:
  "isRecording (stopRecording d) = False"
  "currentInput (stopRecording d) = None"
  "buttonValue (stopRecording d) = buttonValue d"
  by (simp_all add: stopRecording_def Let_def split: option.split)

lemma stopRecording_recording:
  "recording (stopRecording d) = recording d - set_option (currentInput d)"
  by (simp add: stopRecording_def Let_def split: option.split)

lemma stopRecording_value:
  "inputValue (stopRecording d) f =
     (if currentInput d = Some f \<and> inputValue d f = ''Recording...''
      then defaultHotkey f else inputValue d f)"
  by (simp add: stopRecording_def Let_def split: option.split)

subsection \<open>The session invariant holds in every reachable state\<close>

lemma sessionInv_initial: "sessionInv initialDialog"
  by (simp add: sessionInv_def initialDialog_def)

lemma sessionInv_stopRecording: "sessionInv d \<Longrightarrow> sessionInv (stopRecording d)"
  by (simp add: sessionInv_def stopRecording_session stopRecording_recording)

lemma sessionInv_startRecording: "sessionInv d \<Longrightarrow> sessionInv (startRecording b d)"
  by (auto simp add: sessionInv_def startRecording_def Let_def stopRecording_session
      stopRecording_recording)

lemma sessionInv_resetHotkeys: "sessionInv d \<Longrightarrow> sessionInv (resetHotkeys d)"
  by (simp add: sessionInv_def resetHotkeys_other)

lemma setEntry_session:
  "recording (setEntry d x) = recording d"
  "isRecording (setEntry d x) = isRecording d"
  "currentInput (setEntry d x) = currentInput d"
  by (simp_all add: setEntry_def split: option.split element.split)

lemma foldl_setEntry_session:
  "recording (foldl setEntry d h) = recording d
   \<and> isRecording (foldl setEntry d h) = isRecording d
   \<and> currentInput (foldl setEntry d h) = currentInput d"
  by (induction h arbitrary: d) (simp_all add: setEntry_session)

lemma sessionInv_loadHotkeys: "sessionInv d \<Longrightarrow> sessionInv (fst (loadHotkeys d w))"
  by (simp add: sessionInv_def loadHotkeys_def foldl_setEntry_session split: sum.split)

lemma sessionInv_keydown:
  "sessionInv d \<Longrightarrow> keydown rt e d = Inr (p, d') \<Longrightarrow> sessionInv d'"
  by (auto simp add: keydown_def Let_def sessionInv_def stopRecording_session
      stopRecording_recording split: if_splits option.splits)

lemma sessionInv_handle: "sessionInv (fst s) \<Longrightarrow> sessionInv (fst (handle rt ev s))"
proof (cases s)
  case (Pair d w)
  assume "sessionInv (fst s)"
  with Pair have inv: "sessionInv d" by simp
  show ?thesis
  proof (cases ev)
    case (KeyDown e)
    with Pair inv show ?thesis
      by (auto split: sum.split dest: sessionInv_keydown)
  qed (use Pair inv in \<open>simp_all add: sessionInv_startRecording sessionInv_stopRecording
        sessionInv_resetHotkeys sessionInv_loadHotkeys\<close>)
qed

lemma reachable_sessionInv: "reachable rt s \<Longrightarrow> sessionInv (fst s)"
  by (induction rule: reachable.induct) (simp_all add: sessionInv_initial sessionInv_handle)

text \<open>In a reachable state the key-down listener never throws.\<close>

lemma keydown_no_throw: "sessionInv d \<Longrightarrow> keydown rt e d \<noteq> Inl err"
  by (auto simp add: keydown_def Let_def sessionInv_def split: option.split)

subsection \<open>Loading and saving\<close>

lemma setEntry_value:
  "inputValue (setEntry d x) f = (if fst x = id_of f then snd x else inputValue d f)"
proof (cases "getElementById (fst x)")
  case None
  then have "fst x \<noteq> id_of f" by (auto simp add: getElementById_id_of)
  with None show ?thesis by (simp add: setEntry_def)
next
  case (Some el)
  show ?thesis
  proof (cases el)
    case (Input g)
    with Some have k: "fst x = id_of g" by (simp add: getElementById_Input)
    with Some Input show ?thesis by (simp add: setEntry_def id_of_eq_iff)
  next
    case (Button b)
    with Some have "fst x \<noteq> id_of f" by (auto simp add: getElementById_id_of)
    with Some Button show ?thesis by (simp add: setEntry_def)
  qed
qed

text \<open>
  The \<open>forEach\<close> of \<open>loadHotkeys\<close> leaves in each field the value of the last entry
  under the field's id, and the field's old value when there is none.
\<close>

lemma foldl_setEntry_value:
  "inputValue (foldl setEntry d h) f =
     (case map_of (rev h) (id_of f) of Some v \<Rightarrow> v | None \<Rightarrow> inputValue d f)"
proof (induction h rule: rev_induct)
  case Nil
  show ?case by simp
next
  case (snoc x xs)
  then show ?case by (cases x) (simp add: setEntry_value)
qed

lemma collectHotkeys_eq:
  "collectHotkeys d = map (\<lambda>f. (id_of f, valueOrDefault d f)) hotkeyInputs"
  by (simp add: collectHotkeys_def hotkeyInputs_def)

lemma map_of_collectHotkeys:
  "map_of (collectHotkeys d) (id_of f) = Some (valueOrDefault d f)"
  by (cases f) (simp_all add: collectHotkeys_eq hotkeyInputs_def)

lemma map_of_rev_collectHotkeys:
  "map_of (rev (collectHotkeys d)) (id_of f) = Some (valueOrDefault d f)"
  by (cases f) (simp_all add: collectHotkeys_eq hotkeyInputs_def)

text \<open>The preload script exposes no \<open>closeHotkeyDialog\<close>, so the call always throws.\<close>

lemma closeHotkeyDialog_throws:
  "api_closeHotkeyDialog w = Inl (TypeError ''window.api.closeHotkeyDialog is not a function'')"
  by (simp add: api_closeHotkeyDialog_def api_methods_def)

lemma saveHotkeys_ok:
  assumes "\<not> getRejects w" and "\<not> saveRejects w"
  shows "saveHotkeys d w =
           console_error ''Error saving hotkeys:''
             (w\<lparr>store := Some ((case store w of None \<Rightarrow> emptySettings | Some s \<Rightarrow> s)
                                 \<lparr>hotkeys := Some (collectHotkeys d)\<rparr>)\<rparr>)"
  using assms
  by (simp add: saveHotkeys_def Let_def api_getSettings_def api_saveSettings_def
      closeHotkeyDialog_throws)

lemma saveHotkeys_rejected:
  assumes "getRejects w \<or> saveRejects w"
  shows "saveHotkeys d w = console_error ''Error saving hotkeys:'' w"
  using assms
  by (auto simp add: saveHotkeys_def Let_def api_getSettings_def api_saveSettings_def)

lemma console_error_fields:
  "store (console_error m w) = store w"
  "getRejects (console_error m w) = getRejects w"
  "saveRejects (console_error m w) = saveRejects w"
  "windowOpen (console_error m w) = windowOpen w"
  by (simp_all add: console_error_def)

lemma handle_SaveClick: "handle rt SaveClick s = (fst s, saveHotkeys (fst s) (snd s))"
  by (cases s) simp

text \<open>Save never closes the window, whatever the gateway does.\<close>

lemma saveHotkeys_windowOpen: "windowOpen (saveHotkeys d w) = windowOpen w"
proof (cases "getRejects w \<or> saveRejects w")
  case True
  then show ?thesis by (simp add: saveHotkeys_rejected console_error_fields)
next
  case False
  then show ?thesis by (simp add: saveHotkeys_ok console_error_fields)
qed

text \<open>The dialog's save keeps every section other than \<open>hotkeys\<close>.\<close>

lemma saveHotkeys_keeps_rest:
  assumes "\<not> getRejects w" and "\<not> saveRejects w"
  shows "map_option rest (store (saveHotkeys d w)) =
           Some (case store w of None \<Rightarrow> Map.empty | Some s \<Rightarrow> rest s)"
  using assms
  by (simp add: saveHotkeys_ok console_error_fields emptySettings_def split: option.split)

text \<open>A successful save in the main window always leaves a blob with no \<open>hotkeys\<close>.\<close>

lemma saveSettings_drops_hotkeys:
  assumes "\<not> saveRejects w"
  shows "persistedHotkeys (store (saveSettings form w)) = None"
  using assms
  by (simp add: saveSettings_def api_saveSettings_def Let_def persistedHotkeys_def)

text \<open>
  A key-down of a modifier key with a modifier flag set ends the session it meets.
\<close>

lemma keydown_modifier_key_commits:
  assumes "isRecording d" and "currentInput d = Some c"
    and "key e \<in> {''Control'', ''Alt'', ''Shift''}"
    and "ctrlKey e \<or> altKey e \<or> shiftKey e"
  shows "normalizeKeyEvent rt e \<noteq> None
       \<and> (\<exists>d'. keydown rt e d = Inr (True, d') \<and> \<not> isRecording d' \<and> currentInput d' = None)"
proof -
  from assms(4) have "hotkeyKeys rt e \<noteq> []"
    by (auto simp add: hotkeyKeys_def Let_def)
  with assms(1,2) show ?thesis
    by (simp add: normalizeKeyEvent_def keydown_def Let_def stopRecording_session)
qed

lemma scenario_values:
  "snd (scenario rt) = freshWorld"
  "inputValue (fst (scenario rt)) PushToTalk = ''Alt+Space''"
  "inputValue (fst (scenario rt)) ToggleHandsFree = ''Alt+H''"
  "inputValue (fst (scenario rt)) ToggleBar = ''Alt+B''"
  "inputValue (fst (scenario rt)) SwitchEn = ''Alt+4''"
  "inputValue (fst (scenario rt)) SwitchPt = ''Alt+2''"
  "inputValue (fst (scenario rt)) SwitchEs = ''Alt+3''"
  by (simp_all add: scenario_def loadHotkeys_def api_getSettings_def freshWorld_def
      hotkeysOrDefault_def persistedHotkeys_def defaultHotkeys_def setEntry_def
      getElementById_def elementsWithId_def initialDialog_def startRecording_def
      keydown_def hotkeyKeys_def primaryToken_def jsLength_def toUpperCase_def isAscii_def
      asciiUpper_def lowerLetters_def capitalLetters_def stopRecording_def)

section \<open>The claims\<close>

text \<open>
  Claim C1 says that a key-down whose key is Control, Alt or Shift yields no hotkey
  string, commits nothing and leaves the session capturing, even with modifier flags
  set. The listener does otherwise. Pressing Alt while \<open>switch-en\<close> is capturing
  delivers the key \<open>Alt\<close> with \<open>altKey\<close> set: \<open>keys\<close> is \<open>['Alt']\<close>, not empty, so
  the listener writes \<open>Alt\<close> into the field and stops the session.
\<close>

theorem modifier_keydown_commits:
  "normalizeKeyEvent rt \<lparr>ctrlKey = False, altKey = True, shiftKey = False, key = ''Alt''\<rparr>
     = Some ''Alt''
   \<and> isRecording (startRecording SwitchEn initialDialog)
   \<and> currentInput (startRecording SwitchEn initialDialog) = Some SwitchEn
   \<and> keydown rt \<lparr>ctrlKey = False, altKey = True, shiftKey = False, key = ''Alt''\<rparr>
        (startRecording SwitchEn initialDialog)
      = Inr (True, initialDialog\<lparr>inputValue := (inputValue initialDialog)(SwitchEn := ''Alt'')\<rparr>)
   \<and> inputValue (initialDialog\<lparr>inputValue := (inputValue initialDialog)(SwitchEn := ''Alt'')\<rparr>)
        SwitchEn = ''Alt''
   \<and> \<not> isRecording (initialDialog\<lparr>inputValue := (inputValue initialDialog)(SwitchEn := ''Alt'')\<rparr>)"
  by (simp add: normalizeKeyEvent_def keydown_def startRecording_def initialDialog_def
      hotkeyKeys_def stopRecording_def)

text \<open>
  Claim C2: for every set \<open>M\<close> of held modifiers and every key \<open>K\<close> that is not a
  modifier key, the listener's tokens are the tokens of the modifiers in \<open>M\<close> in the
  order Ctrl, Alt, Shift, followed by exactly one more token, and the string is these
  tokens joined by \<open>+\<close>. The event carries the modifiers as flags only, so the order
  in which they were pressed cannot matter. The last token is \<open>K\<close> itself when \<open>K\<close>
  is not a single character. When \<open>K\<close> is a single ASCII character \<open>c\<close> the token is
  \<open>c\<close> upper-cased: the capital of a letter \<open>a\<close> to \<open>z\<close> (the character 32 codes
  below), and \<open>c\<close> otherwise. When \<open>K\<close> is a single character outside ASCII the token
  is what the runtime's \<open>toUpperCase\<close> gives for \<open>K\<close>. The token is not the name of
  a modifier key; for a character outside ASCII this rests on the runtime's result
  holding no small ASCII letter.
\<close>

theorem normalize_modifier_order:
  assumes "K \<notin> {''Control'', ''Alt'', ''Shift''}"
  shows "hotkeyKeys rt (eventOf M K) =
           map modifierToken (filter (\<lambda>m. m \<in> M) [Ctrl, Alt, Shift]) @ [primaryToken rt K]
       \<and> normalizeKeyEvent rt (eventOf M K) =
           Some (join ''+''
             (map modifierToken (filter (\<lambda>m. m \<in> M) [Ctrl, Alt, Shift])
                @ [primaryToken rt K]))
       \<and> (jsLength K \<noteq> 1 \<longrightarrow> primaryToken rt K = K)
       \<and> (jsLength K = 1 \<and> isAscii K \<longrightarrow>
            (\<exists>c. K = [c] \<and>
               primaryToken rt K =
                 [char_of (if 97 \<le> (of_char c :: nat) \<and> (of_char c :: nat) \<le> 122
                           then (of_char c :: nat) - 32 else of_char c)]))
       \<and> (jsLength K = 1 \<and> \<not> isAscii K \<longrightarrow> primaryToken rt K = rt K)
       \<and> (isAscii K \<or> jsLength K \<noteq> 1 \<or> (\<forall>c \<in> set (rt K). c \<notin> set lowerLetters) \<longrightarrow>
            primaryToken rt K \<notin> {''Control'', ''Alt'', ''Shift''})"
proof -
  have tokens: "hotkeyKeys rt (eventOf M K) =
           map modifierToken (filter (\<lambda>m. m \<in> M) [Ctrl, Alt, Shift]) @ [primaryToken rt K]"
    using assms by (simp add: hotkeyKeys_def eventOf_def Let_def)
  have joined: "normalizeKeyEvent rt (eventOf M K) =
           Some (join ''+''
             (map modifierToken (filter (\<lambda>m. m \<in> M) [Ctrl, Alt, Shift])
                @ [primaryToken rt K]))"
    by (simp only: normalizeKeyEvent_def Let_def tokens) simp
  have long: "jsLength K \<noteq> 1 \<longrightarrow> primaryToken rt K = K"
    by (simp add: primaryToken_def)
  have single: "\<exists>c. K = [c] \<and>
               primaryToken rt K =
                 [char_of (if 97 \<le> (of_char c :: nat) \<and> (of_char c :: nat) \<le> 122
                           then (of_char c :: nat) - 32 else of_char c)]"
    if one: "jsLength K = 1" and ascii: "isAscii K"
  proof -
    from one ascii have "length K = 1" by (simp add: jsLength_ascii)
    then obtain c where K: "K = [c]" by (cases K) auto
    from one ascii have "primaryToken rt K = map asciiUpper K"
      by (simp add: primaryToken_def toUpperCase_def)
    with K have "primaryToken rt K = [asciiUpper c]" by simp
    with K show ?thesis by (simp only: asciiUpper_code) blast
  qed
  have other: "jsLength K = 1 \<and> \<not> isAscii K \<longrightarrow> primaryToken rt K = rt K"
    by (simp add: primaryToken_def toUpperCase_def)
  have small: "CHR ''o'' \<in> set lowerLetters" "CHR ''l'' \<in> set lowerLetters"
    "CHR ''h'' \<in> set lowerLetters"
    by (simp_all add: lowerLetters_def)
  have caps: "rt K \<notin> {''Control'', ''Alt'', ''Shift''}"
    if "\<forall>c \<in> set (rt K). c \<notin> set lowerLetters"
  proof
    assume "rt K \<in> {''Control'', ''Alt'', ''Shift''}"
    then have "CHR ''o'' \<in> set (rt K) \<or> CHR ''l'' \<in> set (rt K) \<or> CHR ''h'' \<in> set (rt K)"
      by auto
    with that small show False by blast
  qed
  have name: "primaryToken rt K \<notin> {''Control'', ''Alt'', ''Shift''}"
    if "isAscii K \<or> jsLength K \<noteq> 1 \<or> (\<forall>c \<in> set (rt K). c \<notin> set lowerLetters)"
  proof (cases "jsLength K = 1")
    case False
    with long assms show ?thesis by simp
  next
    case True
    show ?thesis
    proof (cases "isAscii K")
      case ascii: True
      from single [OF True ascii] obtain u where "primaryToken rt K = [u]" by blast
      then show ?thesis by simp
    next
      case False
      with True that have "\<forall>c \<in> set (rt K). c \<notin> set lowerLetters" by simp
      then have "rt K \<notin> {''Control'', ''Alt'', ''Shift''}" by (rule caps)
      with other True False show ?thesis by simp
    qed
  qed
  from tokens joined long single other name show ?thesis by blast
qed

text \<open>
  Shift and Ctrl held with \<open>h\<close> give \<open>Ctrl+Shift+H\<close>; a named key keeps its name; c
  with cedilla (two bytes in UTF-8, one UTF-16 code unit) goes through the runtime.
\<close>

theorem normalize_modifier_order_witness:
  "\<forall>rt. ''h'' \<notin> {''Control'', ''Alt'', ''Shift''}
   \<and> normalizeKeyEvent rt (eventOf {Shift, Ctrl} ''h'') = Some ''Ctrl+Shift+H''
   \<and> normalizeKeyEvent rt (eventOf {Ctrl, Alt, Shift} ''h'') = Some ''Ctrl+Alt+Shift+H''
   \<and> normalizeKeyEvent rt (eventOf {Alt} ''F5'') = Some ''Alt+F5''
   \<and> normalizeKeyEvent rt (eventOf {} ''ArrowUp'') = Some ''ArrowUp''
   \<and> normalizeKeyEvent rt (eventOf {Alt} [CHR 0xC3, CHR 0xA7])
       = Some (''Alt+'' @ rt [CHR 0xC3, CHR 0xA7])"
proof -
  have h: "''h'' \<notin> {''Control'', ''Alt'', ''Shift''}" by simp
  have f: "''F5'' \<notin> {''Control'', ''Alt'', ''Shift''}" by simp
  have u: "''ArrowUp'' \<notin> {''Control'', ''Alt'', ''Shift''}" by simp
  have c: "[CHR 0xC3, CHR 0xA7] \<notin> {''Control'', ''Alt'', ''Shift''}" by simp
  have th: "primaryToken rt ''h'' = ''H''" for rt
    by (simp add: primaryToken_def jsLength_def toUpperCase_def isAscii_def asciiUpper_def
        lowerLetters_def capitalLetters_def)
  have tf: "primaryToken rt ''F5'' = ''F5''" for rt
    by (simp add: primaryToken_def jsLength_def)
  have tu: "primaryToken rt ''ArrowUp'' = ''ArrowUp''" for rt
    by (simp add: primaryToken_def jsLength_def)
  have tc: "primaryToken rt [CHR 0xC3, CHR 0xA7] = rt [CHR 0xC3, CHR 0xA7]" for rt
    by (simp add: primaryToken_def jsLength_def toUpperCase_def isAscii_def)
  have main: "''h'' \<notin> {''Control'', ''Alt'', ''Shift''}
   \<and> normalizeKeyEvent rt (eventOf {Shift, Ctrl} ''h'') = Some ''Ctrl+Shift+H''
   \<and> normalizeKeyEvent rt (eventOf {Ctrl, Alt, Shift} ''h'') = Some ''Ctrl+Alt+Shift+H''
   \<and> normalizeKeyEvent rt (eventOf {Alt} ''F5'') = Some ''Alt+F5''
   \<and> normalizeKeyEvent rt (eventOf {} ''ArrowUp'') = Some ''ArrowUp''
   \<and> normalizeKeyEvent rt (eventOf {Alt} [CHR 0xC3, CHR 0xA7])
       = Some (''Alt+'' @ rt [CHR 0xC3, CHR 0xA7])" for rt
    using normalize_modifier_order [OF h, where M = "{Shift, Ctrl}" and rt = rt]
      normalize_modifier_order [OF h, where M = "{Ctrl, Alt, Shift}" and rt = rt]
      normalize_modifier_order [OF f, where M = "{Alt}" and rt = rt]
      normalize_modifier_order [OF u, where M = "{}" and rt = rt]
      normalize_modifier_order [OF c, where M = "{Alt}" and rt = rt]
    by (simp add: th tf tu tc)
  show ?thesis by (intro allI main)
qed

text \<open>
  Claim C3: in every reachable state at most one field is capturing. Activating a field
  \<open>b\<close> while a field \<open>a\<close> is capturing is \<open>stopRecording\<close> followed by \<open>b\<close>'s
  entry: \<open>a\<close> is first finalized under its exit rule (its value goes back to its
  default if it still shows the placeholder, and is kept otherwise; \<open>a\<close> is no longer
  capturing) and then \<open>b\<close>, and only \<open>b\<close>, is capturing. While the session is idle
  the key-down listener changes nothing and does not even suppress the event.
\<close>

theorem single_capturing_field:
  assumes "reachable rt (d, w)"
  shows "(\<forall>f g. isCapturing d f \<longrightarrow> isCapturing d g \<longrightarrow> f = g)
       \<and> (\<forall>a b. isCapturing d a \<longrightarrow>
            startRecording b d =
              (stopRecording d)\<lparr>isRecording := True, currentInput := Some b,
                 inputValue := (inputValue (stopRecording d))(b := ''Recording...''),
                 recording := insert b (recording (stopRecording d))\<rparr>
            \<and> \<not> isCapturing (stopRecording d) a
            \<and> inputValue (stopRecording d) a =
                (if inputValue d a = ''Recording...'' then defaultHotkey a else inputValue d a)
            \<and> (\<forall>f. isCapturing (startRecording b d) f = (f = b)))
       \<and> (\<not> isRecording d \<longrightarrow> (\<forall>e. keydown rt e d = Inr (False, d)))"
proof -
  from assms have "sessionInv (fst (d, w))" by (rule reachable_sessionInv)
  then have inv: "isRecording d = (currentInput d \<noteq> None)"
    "recording d = set_option (currentInput d)"
    by (simp_all add: sessionInv_def)
  have one: "\<forall>f g. isCapturing d f \<longrightarrow> isCapturing d g \<longrightarrow> f = g"
    using inv by (auto simp add: isCapturing_def)
  have cap: "isCapturing d a \<Longrightarrow> isRecording d \<and> currentInput d = Some a" for a
    using inv by (auto simp add: isCapturing_def)
  have pre: "startRecording b d =
              (stopRecording d)\<lparr>isRecording := True, currentInput := Some b,
                 inputValue := (inputValue (stopRecording d))(b := ''Recording...''),
                 recording := insert b (recording (stopRecording d))\<rparr>
            \<and> \<not> isCapturing (stopRecording d) a
            \<and> inputValue (stopRecording d) a =
                (if inputValue d a = ''Recording...'' then defaultHotkey a else inputValue d a)
            \<and> (\<forall>f. isCapturing (startRecording b d) f = (f = b))" if "isCapturing d a" for a b
  proof -
    from cap [OF that] have r: "isRecording d" and c: "currentInput d = Some a" by simp_all
    from r have 1: "startRecording b d =
              (stopRecording d)\<lparr>isRecording := True, currentInput := Some b,
                 inputValue := (inputValue (stopRecording d))(b := ''Recording...''),
                 recording := insert b (recording (stopRecording d))\<rparr>"
      by (simp add: startRecording_def Let_def)
    have 2: "\<not> isCapturing (stopRecording d) a"
      using inv c by (simp add: isCapturing_def stopRecording_session stopRecording_recording)
    have 3: "inputValue (stopRecording d) a =
                (if inputValue d a = ''Recording...'' then defaultHotkey a else inputValue d a)"
      using c by (simp add: stopRecording_value)
    have 4: "\<forall>f. isCapturing (startRecording b d) f = (f = b)"
      using inv c by (auto simp add: 1 isCapturing_def stopRecording_recording)
    from 1 2 3 4 show ?thesis by blast
  qed
  have idle: "\<not> isRecording d \<longrightarrow> (\<forall>e. keydown rt e d = Inr (False, d))"
    by (simp add: keydown_def)
  from one pre idle show ?thesis by blast
qed

text \<open>
  The scenario of the specification: click \<open>toggle-bar\<close>, then click \<open>switch-es\<close>
  without pressing a key. \<open>toggle-bar\<close> goes back to \<open>Alt+B\<close> and \<open>switch-es\<close> alone
  is capturing.
\<close>

theorem single_capturing_field_witness:
  "(\<forall>rt. reachable rt (startRecording ToggleBar initialDialog, freshWorld))
   \<and> isCapturing (startRecording ToggleBar initialDialog) ToggleBar
   \<and> inputValue (stopRecording (startRecording ToggleBar initialDialog)) ToggleBar = ''Alt+B''
   \<and> inputValue (startRecording SwitchEs (startRecording ToggleBar initialDialog)) ToggleBar
       = ''Alt+B''
   \<and> isCapturing (startRecording SwitchEs (startRecording ToggleBar initialDialog)) SwitchEs
   \<and> \<not> isCapturing (startRecording SwitchEs (startRecording ToggleBar initialDialog)) ToggleBar"
proof -
  have r: "reachable rt (startRecording ToggleBar initialDialog, freshWorld)" for rt
  proof -
    have "reachable rt (handle rt (Click ToggleBar) (initialDialog, freshWorld))"
      by (rule reachable.step) (rule reachable.initial)
    then show ?thesis by simp
  qed
  have c: "isCapturing (startRecording ToggleBar initialDialog) ToggleBar"
    by (simp add: isCapturing_def startRecording_def initialDialog_def)
  have v: "inputValue (startRecording ToggleBar initialDialog) ToggleBar = ''Recording...''"
    by (simp add: startRecording_def initialDialog_def)
  let ?d = "startRecording ToggleBar initialDialog"
  from single_capturing_field [OF r] c
  have all: "startRecording SwitchEs ?d =
          (stopRecording ?d)
            \<lparr>isRecording := True, currentInput := Some SwitchEs,
             inputValue := (inputValue (stopRecording ?d))(SwitchEs := ''Recording...''),
             recording := insert SwitchEs (recording (stopRecording ?d))\<rparr>
        \<and> inputValue (stopRecording ?d) ToggleBar =
            (if inputValue ?d ToggleBar = ''Recording...''
             then defaultHotkey ToggleBar else inputValue ?d ToggleBar)
        \<and> (\<forall>f. isCapturing (startRecording SwitchEs ?d) f = (f = SwitchEs))"
    by blast
  from all v have stopped: "inputValue (stopRecording ?d) ToggleBar = ''Alt+B''"
    by (simp add: defaultHotkey_simps)
  from all have "inputValue (startRecording SwitchEs ?d) ToggleBar
      = inputValue (stopRecording ?d) ToggleBar"
    by simp
  with stopped have started: "inputValue (startRecording SwitchEs ?d) ToggleBar = ''Alt+B''"
    by simp
  from all have only: "isCapturing (startRecording SwitchEs ?d) SwitchEs"
    "\<not> isCapturing (startRecording SwitchEs ?d) ToggleBar"
    by blast+
  from r c stopped started only show ?thesis
    by blast
qed

text \<open>
  Claim C4: when the capturing field \<open>c\<close> loses focus, its value becomes its default if
  it still shows the placeholder \<open>Recording...\<close> and is left as it is otherwise; no
  other field changes; and the session is idle afterwards.
\<close>

theorem abandon_restores_default:
  assumes "isRecording d" and "currentInput d = Some c"
  shows "inputValue (fst (handle rt (Blur c) (d, w))) c =
           (if inputValue d c = ''Recording...'' then defaultHotkey c else inputValue d c)
       \<and> (\<forall>f. f \<noteq> c \<longrightarrow> inputValue (fst (handle rt (Blur c) (d, w))) f = inputValue d f)
       \<and> \<not> isRecording (fst (handle rt (Blur c) (d, w)))
       \<and> currentInput (fst (handle rt (Blur c) (d, w))) = None
       \<and> \<not> isCapturing (fst (handle rt (Blur c) (d, w))) c"
  using assms
  by (simp add: stopRecording_session stopRecording_value stopRecording_recording
      isCapturing_def)

text \<open>Abandoning \<open>toggle-bar\<close> right after the click gives \<open>Alt+B\<close>.\<close>

theorem abandon_restores_default_witness:
  "\<forall>rt. isRecording (startRecording ToggleBar initialDialog)
   \<and> currentInput (startRecording ToggleBar initialDialog) = Some ToggleBar
   \<and> inputValue
        (fst (handle rt (Blur ToggleBar) (startRecording ToggleBar initialDialog, freshWorld)))
        ToggleBar = ''Alt+B''
   \<and> \<not> isRecording
        (fst (handle rt (Blur ToggleBar) (startRecording ToggleBar initialDialog, freshWorld)))"
proof -
  have a: "isRecording (startRecording ToggleBar initialDialog)"
    by (simp add: startRecording_def initialDialog_def)
  have b: "currentInput (startRecording ToggleBar initialDialog) = Some ToggleBar"
    by (simp add: startRecording_def initialDialog_def)
  have v: "inputValue (startRecording ToggleBar initialDialog) ToggleBar = ''Recording...''"
    by (simp add: startRecording_def initialDialog_def)
  have main: "isRecording (startRecording ToggleBar initialDialog)
   \<and> currentInput (startRecording ToggleBar initialDialog) = Some ToggleBar
   \<and> inputValue
        (fst (handle rt (Blur ToggleBar) (startRecording ToggleBar initialDialog, freshWorld)))
        ToggleBar = ''Alt+B''
   \<and> \<not> isRecording
        (fst (handle rt (Blur ToggleBar) (startRecording ToggleBar initialDialog, freshWorld)))"
    for rt
    using abandon_restores_default [OF a b, where w = freshWorld and rt = rt] a b v
    by (simp add: defaultHotkey_simps)
  show ?thesis by (intro allI main)
qed

text \<open>
  Claim C5: \<open>resetHotkeys\<close> sets the six fields to the default table whatever they
  held before, and resetting twice gives the same state as resetting once.
\<close>

theorem resetHotkeys_defaults_idempotent:
  "inputValue (resetHotkeys d) PushToTalk = ''Alt+Space''
   \<and> inputValue (resetHotkeys d) ToggleHandsFree = ''Alt+H''
   \<and> inputValue (resetHotkeys d) ToggleBar = ''Alt+B''
   \<and> inputValue (resetHotkeys d) SwitchEn = ''Alt+1''
   \<and> inputValue (resetHotkeys d) SwitchPt = ''Alt+2''
   \<and> inputValue (resetHotkeys d) SwitchEs = ''Alt+3''
   \<and> resetHotkeys (resetHotkeys d) = resetHotkeys d"
proof -
  have "resetHotkeys (resetHotkeys d) = resetHotkeys d"
    by (rule dialog.equality) (simp_all add: resetHotkeys_other resetHotkeys_value fun_eq_iff)
  then show ?thesis
    by (simp add: resetHotkeys_value defaultHotkey_simps)
qed

text \<open>
  Claim C6 says that load falls back to the default for each identifier on its own.
  It does not: the fallback is for the section as a whole. With a persisted section
  that holds \<open>switch-en\<close> only, a fresh dialog's \<open>push-to-talk\<close> stays empty instead
  of showing \<open>Alt+Space\<close>.
\<close>

theorem load_partial_section_counterexample:
  "inputValue
     (fst (loadHotkeys initialDialog
        (freshWorld\<lparr>store :=
           Some \<lparr>hotkeys = Some [(''switch-en'', ''Alt+4'')], rest = Map.empty\<rparr>\<rparr>)))
     PushToTalk = []
   \<and> map_of [(''switch-en'', ''Alt+4'')] (id_of PushToTalk) = None
   \<and> defaultHotkey PushToTalk = ''Alt+Space''"
  by (simp add: loadHotkeys_def api_getSettings_def freshWorld_def hotkeysOrDefault_def
      persistedHotkeys_def setEntry_def getElementById_def elementsWithId_def initialDialog_def defaultHotkey_simps)

text \<open>
  Claim C6, amended: when the read succeeds, load logs no error and takes the persisted
  \<open>hotkeys\<close> section as a whole when the blob has one, and the default table as a whole
  otherwise; so with no blob, or no section, every field gets its default. From a
  persisted section each field takes the value stored under its own id; a field with no
  entry keeps the value it had (empty in a fresh dialog); entries under other keys
  change no field.
\<close>

theorem load_section_or_defaults:
  assumes "\<not> getRejects w"
  shows "snd (loadHotkeys d w) = w
       \<and> inputValue (fst (loadHotkeys d w)) f =
           (case store w of
              None \<Rightarrow> defaultHotkey f
            | Some s \<Rightarrow>
                (case hotkeys s of
                   None \<Rightarrow> defaultHotkey f
                 | Some h \<Rightarrow>
                     (case map_of (rev h) (id_of f) of
                        Some v \<Rightarrow> v
                      | None \<Rightarrow> inputValue d f)))"
proof -
  have dflt: "map_of (rev defaultHotkeys) (id_of f) = Some (defaultHotkey f)"
    by (cases f) (simp_all add: defaultHotkeys_def defaultHotkey_simps)
  from assms show ?thesis
    by (simp add: loadHotkeys_def api_getSettings_def hotkeysOrDefault_def persistedHotkeys_def
        foldl_setEntry_value dflt split: option.split)
qed

text \<open>A first run, with nothing persisted: the fields show the defaults.\<close>

theorem load_section_or_defaults_witness:
  "\<not> getRejects freshWorld
   \<and> snd (loadHotkeys initialDialog freshWorld) = freshWorld
   \<and> inputValue (fst (loadHotkeys initialDialog freshWorld)) PushToTalk = ''Alt+Space''
   \<and> inputValue (fst (loadHotkeys initialDialog freshWorld)) SwitchEs = ''Alt+3''"
proof -
  have g: "\<not> getRejects freshWorld" by (simp add: freshWorld_def)
  have s: "store freshWorld = None" by (simp add: freshWorld_def)
  from load_section_or_defaults [OF g, of initialDialog PushToTalk]
    load_section_or_defaults [OF g, of initialDialog SwitchEs] g s
  show ?thesis by (simp add: defaultHotkey_simps)
qed

text \<open>
  Claim C7: when every field holds a non-empty string and the gateway's read and write
  succeed, saving and then loading (into a dialog in any state \<open>d0\<close>, with no write in
  between) gives back the field values that were saved.
\<close>

theorem save_load_roundtrip:
  assumes "\<not> getRejects w" and "\<not> saveRejects w" and "\<forall>f. inputValue d f \<noteq> []"
  shows "inputValue (fst (loadHotkeys d0 (saveHotkeys d w))) = inputValue d"
proof
  fix f
  from assms(3) have v: "valueOrDefault d f = inputValue d f"
    by (simp add: valueOrDefault_def)
  from assms(1,2) show "inputValue (fst (loadHotkeys d0 (saveHotkeys d w))) f = inputValue d f"
    by (simp add: saveHotkeys_ok loadHotkeys_def api_getSettings_def console_error_fields
        hotkeysOrDefault_def persistedHotkeys_def foldl_setEntry_value
        map_of_rev_collectHotkeys v)
qed

theorem save_load_roundtrip_witness:
  "\<not> getRejects freshWorld \<and> \<not> saveRejects freshWorld
   \<and> (\<forall>f. inputValue ((resetHotkeys initialDialog)
             \<lparr>inputValue := (inputValue (resetHotkeys initialDialog))(SwitchEn := ''Alt+4'')\<rparr>) f
           \<noteq> [])
   \<and> inputValue (fst (loadHotkeys initialDialog
        (saveHotkeys ((resetHotkeys initialDialog)
             \<lparr>inputValue := (inputValue (resetHotkeys initialDialog))(SwitchEn := ''Alt+4'')\<rparr>)
           freshWorld))) SwitchEn = ''Alt+4''
   \<and> inputValue (fst (loadHotkeys initialDialog
        (saveHotkeys ((resetHotkeys initialDialog)
             \<lparr>inputValue := (inputValue (resetHotkeys initialDialog))(SwitchEn := ''Alt+4'')\<rparr>)
           freshWorld))) ToggleBar = ''Alt+B''"
proof -
  have g: "\<not> getRejects freshWorld" and s: "\<not> saveRejects freshWorld"
    by (simp_all add: freshWorld_def)
  have n: "\<forall>f. inputValue ((resetHotkeys initialDialog)
             \<lparr>inputValue := (inputValue (resetHotkeys initialDialog))(SwitchEn := ''Alt+4'')\<rparr>) f
           \<noteq> []"
    by (simp add: resetHotkeys_value defaultHotkey_nonempty)
  from save_load_roundtrip [OF g s n, of initialDialog] g s n show ?thesis
    by (simp add: resetHotkeys_value defaultHotkey_simps)
qed

text \<open>
  Claim C8 says that after Save, with the gateway working, the persisted \<open>hotkeys\<close>
  section equals the fields' current values and the dialog's window is closed. Saving a
  dialog whose fields are all empty on a first run persists the default table, not the
  empty values, and the window stays open.
\<close>

theorem save_counterexample:
  "\<not> getRejects freshWorld \<and> \<not> saveRejects freshWorld
   \<and> inputValue initialDialog SwitchEn = []
   \<and> persistedHotkeys (store (saveHotkeys initialDialog freshWorld)) = Some defaultHotkeys
   \<and> map_of defaultHotkeys ''switch-en'' = Some ''Alt+1''
   \<and> windowOpen freshWorld
   \<and> windowOpen (saveHotkeys initialDialog freshWorld)"
  by (simp add: saveHotkeys_ok console_error_fields freshWorld_def persistedHotkeys_def
      collectHotkeys_eq hotkeyInputs_def valueOrDefault_def initialDialog_def
      defaultHotkey_simps defaultHotkeys_def)

text \<open>
  Claim C8, amended: after Save, with the gateway's read and write succeeding, the
  persisted \<open>hotkeys\<close> section holds, for each of the six ids in document order, the
  field's current value when that value is not empty and the id's default when it is.
\<close>

theorem save_persists_values_or_defaults:
  assumes "\<not> getRejects w" and "\<not> saveRejects w"
  shows "persistedHotkeys (store (saveHotkeys d w)) =
           Some (map (\<lambda>f. (id_of f, if inputValue d f = [] then defaultHotkey f else inputValue d f))
                   hotkeyInputs)"
  using assms
  by (simp add: saveHotkeys_ok console_error_fields persistedHotkeys_def collectHotkeys_eq
      valueOrDefault_def)

text \<open>
  The scenario of the specification: after recording Alt+4 into \<open>switch-en\<close> and
  saving, the persisted section holds \<open>Alt+4\<close> under \<open>switch-en\<close>.
\<close>

theorem save_persists_values_or_defaults_witness:
  "\<forall>rt. \<not> getRejects (snd (scenario rt)) \<and> \<not> saveRejects (snd (scenario rt))
   \<and> persistedHotkeys (store (snd (handle rt SaveClick (scenario rt)))) =
       Some [(''push-to-talk'', ''Alt+Space''), (''toggle-hands-free'', ''Alt+H''),
             (''toggle-bar'', ''Alt+B''), (''switch-en'', ''Alt+4''),
             (''switch-pt'', ''Alt+2''), (''switch-es'', ''Alt+3'')]"
proof -
  have main: "\<not> getRejects (snd (scenario rt)) \<and> \<not> saveRejects (snd (scenario rt))
   \<and> persistedHotkeys (store (snd (handle rt SaveClick (scenario rt)))) =
       Some [(''push-to-talk'', ''Alt+Space''), (''toggle-hands-free'', ''Alt+H''),
             (''toggle-bar'', ''Alt+B''), (''switch-en'', ''Alt+4''),
             (''switch-pt'', ''Alt+2''), (''switch-es'', ''Alt+3'')]" for rt
  proof -
    have g: "\<not> getRejects (snd (scenario rt))" and s: "\<not> saveRejects (snd (scenario rt))"
      by (simp_all add: scenario_values freshWorld_def)
    have h: "handle rt SaveClick (scenario rt) =
        (fst (scenario rt), saveHotkeys (fst (scenario rt)) (snd (scenario rt)))"
      by (rule handle_SaveClick)
    from save_persists_values_or_defaults [OF g s, of "fst (scenario rt)"] g s show ?thesis
      by (simp add: h hotkeyInputs_def scenario_values)
  qed
  show ?thesis by (intro allI main)
qed

text \<open>
  Claim C9 says that every save reads the latest blob first and leaves the sections it
  does not own as they were, so that a save in the main window keeps the \<open>hotkeys\<close>
  section. The dialog's save does read before it writes, but \<open>saveSettings\<close> of the main
  window writes a blob built from its own nine controls alone: after the dialog has
  persisted the scenario's hotkeys, one save in the main window removes the section.
\<close>

theorem main_save_drops_hotkeys:
  "persistedHotkeys (store (snd (handle rt SaveClick (scenario rt)))) =
     Some [(''push-to-talk'', ''Alt+Space''), (''toggle-hands-free'', ''Alt+H''),
           (''toggle-bar'', ''Alt+B''), (''switch-en'', ''Alt+4''),
           (''switch-pt'', ''Alt+2''), (''switch-es'', ''Alt+3'')]
   \<and> \<not> saveRejects (snd (handle rt SaveClick (scenario rt)))
   \<and> persistedHotkeys
        (store (saveSettings initialForm (snd (handle rt SaveClick (scenario rt))))) = None"
proof -
  have h: "handle rt SaveClick (scenario rt) =
      (fst (scenario rt), saveHotkeys (fst (scenario rt)) freshWorld)"
    by (simp add: handle_SaveClick scenario_values)
  have g: "\<not> getRejects freshWorld" and s: "\<not> saveRejects freshWorld"
    by (simp_all add: freshWorld_def)
  show ?thesis
    by (simp add: h saveHotkeys_ok [OF g s] console_error_fields persistedHotkeys_def
        collectHotkeys_eq hotkeyInputs_def valueOrDefault_def scenario_values
        saveSettings_def api_saveSettings_def Let_def s)
qed

text \<open>
  Claim C10: the \<open>hotkeys\<close> object that Save builds has exactly the six ids as keys and
  maps each to a non-empty string, the field's own value or, for an empty field, the
  id's default. This object is the section persisted when the gateway's read and write
  succeed; when one of them fails nothing is written.
\<close>

theorem saved_hotkeys_nonempty:
  "map fst (collectHotkeys d) = map id_of hotkeyInputs
   \<and> (\<forall>f. map_of (collectHotkeys d) (id_of f) =
             Some (if inputValue d f = [] then defaultHotkey f else inputValue d f)
          \<and> (if inputValue d f = [] then defaultHotkey f else inputValue d f) \<noteq> [])
   \<and> (\<forall>kv \<in> set (collectHotkeys d). snd kv \<noteq> [])
   \<and> (\<not> getRejects w \<and> \<not> saveRejects w \<longrightarrow>
        persistedHotkeys (store (saveHotkeys d w)) = Some (collectHotkeys d))
   \<and> (getRejects w \<or> saveRejects w \<longrightarrow> store (saveHotkeys d w) = store w)"
proof -
  have keys: "map fst (collectHotkeys d) = map id_of hotkeyInputs"
    by (simp add: collectHotkeys_eq comp_def)
  have nonempty: "valueOrDefault d f \<noteq> []" for f
    by (simp add: valueOrDefault_def defaultHotkey_nonempty)
  have unfold: "valueOrDefault d f =
      (if inputValue d f = [] then defaultHotkey f else inputValue d f)" for f
    by (simp add: valueOrDefault_def)
  have each: "\<forall>f. map_of (collectHotkeys d) (id_of f) =
             Some (if inputValue d f = [] then defaultHotkey f else inputValue d f)
          \<and> (if inputValue d f = [] then defaultHotkey f else inputValue d f) \<noteq> []"
    using nonempty by (simp add: map_of_collectHotkeys unfold)
  have vals: "\<forall>kv \<in> set (collectHotkeys d). snd kv \<noteq> []"
    using nonempty by (auto simp add: collectHotkeys_eq)
  have ok: "\<not> getRejects w \<and> \<not> saveRejects w \<longrightarrow>
        persistedHotkeys (store (saveHotkeys d w)) = Some (collectHotkeys d)"
    by (simp add: saveHotkeys_ok console_error_fields persistedHotkeys_def)
  have rej: "getRejects w \<or> saveRejects w \<longrightarrow> store (saveHotkeys d w) = store w"
    by (auto simp add: saveHotkeys_rejected console_error_fields)
  from keys each vals ok rej show ?thesis by blast
qed

text \<open>Saving a dialog whose six fields are empty persists the default table.\<close>

theorem saved_hotkeys_nonempty_witness:
  "\<not> getRejects freshWorld \<and> \<not> saveRejects freshWorld
   \<and> inputValue initialDialog ToggleBar = []
   \<and> map_of (collectHotkeys initialDialog) (id_of ToggleBar) = Some ''Alt+B''
   \<and> persistedHotkeys (store (saveHotkeys initialDialog freshWorld))
       = Some (collectHotkeys initialDialog)
   \<and> collectHotkeys initialDialog = defaultHotkeys"
proof -
  have g: "\<not> getRejects freshWorld" and s: "\<not> saveRejects freshWorld"
    by (simp_all add: freshWorld_def)
  have e: "inputValue initialDialog ToggleBar = []"
    by (simp add: initialDialog_def)
  have c: "collectHotkeys initialDialog = defaultHotkeys"
    by (simp add: collectHotkeys_eq hotkeyInputs_def valueOrDefault_def initialDialog_def
        defaultHotkey_simps defaultHotkeys_def)
  from saved_hotkeys_nonempty [of initialDialog freshWorld] g s
  have p: "persistedHotkeys (store (saveHotkeys initialDialog freshWorld))
       = Some (collectHotkeys initialDialog)"
    and m: "map_of (collectHotkeys initialDialog) (id_of ToggleBar) =
             Some (if inputValue initialDialog ToggleBar = [] then defaultHotkey ToggleBar
                   else inputValue initialDialog ToggleBar)"
    by blast+
  from m e have "map_of (collectHotkeys initialDialog) (id_of ToggleBar) = Some ''Alt+B''"
    by (simp add: defaultHotkey_simps)
  with g s e p c show ?thesis by blast
qed

end
